theory Spec2Isabelle
  imports Main
begin

section \<open>Data model of \<open>sentry/eventstream/kafka/state.py\<close>\<close>

text \<open>
  \<open>Offsets = namedtuple('Offsets', 'local remote')\<close>: an immutable pair whose sides
  are an integer or Python's \<open>None\<close>.
\<close>

datatype Offsets = Offsets (local: "int option") (remote: "int option")

text \<open>
  The four string constants of class \<open>PartitionState\<close>. A stored state is one of them
  or Python's \<open>None\<close> (the state of the default record), hence \<open>PartitionState option\<close>.
  The source compares states with \<open>is\<close>; all values are the interned class attributes
  or \<open>None\<close>, so identity is equality.
\<close>

datatype PartitionState = SYNCHRONIZED | LOCAL_BEHIND | REMOTE_BEHIND | UNKNOWN

type_synonym key = "string \<times> int"

type_synonym partition_record = "PartitionState option \<times> Offsets"

text \<open>
  The three exception classes. \<open>InvalidStateTransition\<close> carries the from/to pair that
  the source formats into its message.
\<close>

datatype error =
    InvalidState
  | InvalidStateTransition "PartitionState option" PartitionState
  | MessageNotReady

text \<open>
  What a call does besides updating the mapping: the three kinds of log line and the
  invocation of the injected callback, each with the arguments the source passes.
\<close>

datatype event =
    LocalMovedBackwards int "int option"
  | RemoteMovedBackwards int "int option"
  | LocalExceedsRemote "int option" "int option"
  | MessagePriorToLocal
  | Callback string int partition_record partition_record

text \<open>
  The manager: \<open>self.partitions\<close> is a \<open>defaultdict\<close>, modelled as a partial map
  together with the accessor \<open>partitions_getitem\<close> below; \<open>events\<close> records, oldest
  first, the log lines written and the callback invocations made so far.
\<close>

record manager =
  partitions :: "key \<rightharpoonup> partition_record"
  events :: "event list"

definition new_manager :: manager where
  "new_manager = \<lparr>partitions = Map.empty, events = []\<rparr>"

definition default_record :: partition_record where
  "default_record = (None, Offsets None None)"

text \<open>
  \<open>self.partitions[key]\<close> on a \<open>defaultdict\<close>: a missing key is first stored with the
  value of the default factory, then returned.
\<close>

definition partitions_getitem :: "manager \<Rightarrow> key \<Rightarrow> partition_record \<times> manager" where
  "partitions_getitem self k =
     (case partitions self k of
        Some r \<Rightarrow> (r, self)
      | None \<Rightarrow> (default_record, self\<lparr>partitions := (partitions self)(k \<mapsto> default_record)\<rparr>))"

definition emit :: "event \<Rightarrow> manager \<Rightarrow> manager" where
  "emit e self = self\<lparr>events := events self @ [e]\<rparr>"

text \<open>
  The module is Python 2 code: \<open>local_offset < previous_offsets.local\<close> is evaluated
  also when the right side is \<open>None\<close>, where Python 2 orders \<open>None\<close> below every
  integer and raises nothing. \<open>py_lt\<close> is that comparison; \<open>py_ge\<close> is the
  source's \<open>>=\<close>, its negation.
\<close>

fun py_lt :: "int option \<Rightarrow> int option \<Rightarrow> bool" where
  "py_lt None None = False"
| "py_lt None (Some b) = True"
| "py_lt (Some a) None = False"
| "py_lt (Some a) (Some b) = (a < b)"

definition py_ge :: "int option \<Rightarrow> int option \<Rightarrow> bool" where
  "py_ge a b = (\<not> py_lt a b)"

section \<open>The state machine\<close>

text \<open>The class attribute \<open>transitions\<close>: from state to the set of states allowed next.\<close>

fun transitions :: "PartitionState option \<Rightarrow> PartitionState set" where
  "transitions None = {UNKNOWN}"
| "transitions (Some UNKNOWN) = {LOCAL_BEHIND, REMOTE_BEHIND, SYNCHRONIZED}"
| "transitions (Some REMOTE_BEHIND) = {LOCAL_BEHIND, SYNCHRONIZED}"
| "transitions (Some LOCAL_BEHIND) = {SYNCHRONIZED, REMOTE_BEHIND}"
| "transitions (Some SYNCHRONIZED) = {LOCAL_BEHIND, REMOTE_BEHIND}"

definition get_state_from_offsets :: "Offsets \<Rightarrow> PartitionState" where
  "get_state_from_offsets offsets =
     (if local offsets = None \<or> remote offsets = None then UNKNOWN
      else if py_lt (local offsets) (remote offsets) then LOCAL_BEHIND
      else if py_lt (remote offsets) (local offsets) then REMOTE_BEHIND
      else SYNCHRONIZED)"

definition set_local_offset ::
  "manager \<Rightarrow> string \<Rightarrow> int \<Rightarrow> int \<Rightarrow> (error + unit) \<times> manager" where
  "set_local_offset self topic part local_offset =
     (let ((previous_state, previous_offsets), s1) = partitions_getitem self (topic, part);
          s2 = (if py_lt (Some local_offset) (local previous_offsets)
                then emit (LocalMovedBackwards local_offset (local previous_offsets)) s1
                else s1);
          updated_offsets = Offsets (Some local_offset) (remote previous_offsets);
          updated_state = get_state_from_offsets updated_offsets
      in if previous_state \<noteq> Some updated_state \<and> updated_state \<notin> transitions previous_state
         then (Inl (InvalidStateTransition previous_state updated_state), s2)
         else
           (let s3 = s2\<lparr>partitions :=
                       (partitions s2)((topic, part) \<mapsto> (Some updated_state, updated_offsets))\<rparr>
            in if previous_state \<noteq> Some updated_state
               then
                 (let s4 = (if updated_state = REMOTE_BEHIND
                            then emit (LocalExceedsRemote (local updated_offsets)
                                         (remote updated_offsets)) s3
                            else s3)
                  in (Inr (),
                      emit (Callback topic part (previous_state, previous_offsets)
                              (Some updated_state, updated_offsets)) s4))
               else (Inr (), s3)))"

definition set_remote_offset ::
  "manager \<Rightarrow> string \<Rightarrow> int \<Rightarrow> int \<Rightarrow> (error + unit) \<times> manager" where
  "set_remote_offset self topic part remote_offset =
     (let ((previous_state, previous_offsets), s1) = partitions_getitem self (topic, part);
          s2 = (if py_lt (Some remote_offset) (remote previous_offsets)
                then emit (RemoteMovedBackwards remote_offset (remote previous_offsets)) s1
                else s1);
          updated_offsets = Offsets (local previous_offsets) (Some remote_offset);
          updated_state = get_state_from_offsets updated_offsets
      in if previous_state \<noteq> Some updated_state \<and> updated_state \<notin> transitions previous_state
         then (Inl (InvalidStateTransition previous_state updated_state), s2)
         else
           (let s3 = s2\<lparr>partitions :=
                       (partitions s2)((topic, part) \<mapsto> (Some updated_state, updated_offsets))\<rparr>
            in if previous_state \<noteq> Some updated_state
               then (Inr (),
                     emit (Callback topic part (previous_state, previous_offsets)
                             (Some updated_state, updated_offsets)) s3)
               else (Inr (), s3)))"

definition validate_local_message ::
  "manager \<Rightarrow> string \<Rightarrow> int \<Rightarrow> int \<Rightarrow> (error + unit) \<times> manager" where
  "validate_local_message self topic part offset =
     (let ((state, offsets), s1) = partitions_getitem self (topic, part)
      in if state \<noteq> Some LOCAL_BEHIND then (Inl InvalidState, s1)
         else if py_ge (Some offset) (remote offsets) then (Inl MessageNotReady, s1)
         else if py_lt (Some offset) (local offsets) then (Inr (), emit MessagePriorToLocal s1)
         else (Inr (), s1))"

section \<open>Sequences of calls\<close>

text \<open>
  A caller makes the three calls in any order on any keys, and may catch an exception and
  carry on: \<open>run_calls\<close> performs a list of calls one after the other and returns the
  outcome of each, with the manager after the last.
\<close>

datatype call =
    SetLocalOffset string int int
  | SetRemoteOffset string int int
  | ValidateLocalMessage string int int

fun perform :: "manager \<Rightarrow> call \<Rightarrow> (error + unit) \<times> manager" where
  "perform self (SetLocalOffset t p v) = set_local_offset self t p v"
| "perform self (SetRemoteOffset t p v) = set_remote_offset self t p v"
| "perform self (ValidateLocalMessage t p v) = validate_local_message self t p v"

fun run_calls :: "manager \<Rightarrow> call list \<Rightarrow> (error + unit) list \<times> manager" where
  "run_calls self [] = ([], self)"
| "run_calls self (c # cs) =
     (let (r, s1) = perform self c; (rs, s2) = run_calls s1 cs in (r # rs, s2))"

text \<open>What a key reads as: its record, or the default record when it has none.\<close>

definition record_of :: "manager \<Rightarrow> key \<Rightarrow> partition_record" where
  "record_of self k = fst (partitions_getitem self k)"

definition state_of :: "manager \<Rightarrow> key \<Rightarrow> PartitionState option" where
  "state_of self k = fst (record_of self k)"

definition offsets_of :: "manager \<Rightarrow> key \<Rightarrow> Offsets" where
  "offsets_of self k = snd (record_of self k)"

text \<open>The callback invocations among the events, in order.\<close>

fun is_callback :: "event \<Rightarrow> bool" where
  "is_callback (Callback t p previous updated) = True"
| "is_callback e = False"

definition callbacks :: "manager \<Rightarrow> event list" where
  "callbacks self = filter is_callback (events self)"

text \<open>Both sides of an offsets pair have been observed.\<close>

definition both_present :: "Offsets \<Rightarrow> bool" where
  "both_present offsets = (local offsets \<noteq> None \<and> remote offsets \<noteq> None)"

text \<open>
  The derived state and the test of line 110 (and 143), as functions of the state and the
  offsets a call finds and builds: \<open>rejected previous_state updated_state\<close> is the
  condition under which the source raises \<open>InvalidStateTransition\<close>.
\<close>

definition rejected :: "PartitionState option \<Rightarrow> PartitionState \<Rightarrow> bool" where
  "rejected previous_state updated_state =
     (previous_state \<noteq> Some updated_state \<and> updated_state \<notin> transitions previous_state)"

text \<open>
  Every stored record is the default record or holds the state derived from its offsets.
\<close>

definition consistent :: "manager \<Rightarrow> bool" where
  "consistent self =
     (\<forall>k st offs. partitions self k = Some (st, offs) \<longrightarrow>
        (st = None \<and> offs = Offsets None None) \<or> st = Some (get_state_from_offsets offs))"

text \<open>
  Two managers for worked examples. \<open>scenario_manager\<close> is a fresh manager after the
  remote offset 100 and then the local offset 50 were reported for partition 0 of topic
  \<open>T\<close>. \<open>inconsistent_manager\<close> has a mapping filled in from outside the three
  operations, with a record whose state is \<open>None\<close> although both offsets are present.
\<close>

definition scenario_manager :: manager where
  "scenario_manager =
     snd (run_calls new_manager [SetRemoteOffset ''T'' 0 100, SetLocalOffset ''T'' 0 50])"

definition inconsistent_manager :: manager where
  "inconsistent_manager =
     \<lparr>partitions = [(''T'', 0) \<mapsto> (None, Offsets (Some 1) (Some 5))], events = []\<rparr>"

section \<open>State derivation\<close>

text \<open>
  C2: the derived state is UNKNOWN when the local side or the remote side is absent; when
  both sides are present it is LOCAL_BEHIND exactly when local < remote, REMOTE_BEHIND
  exactly when local > remote, and SYNCHRONIZED exactly when local = remote.
\<close>

theorem get_state_from_offsets_table:
  "get_state_from_offsets (Offsets None r) = UNKNOWN
   \<and> get_state_from_offsets (Offsets l None) = UNKNOWN
   \<and> ((get_state_from_offsets (Offsets (Some a) (Some b)) = LOCAL_BEHIND) = (a < b))
   \<and> ((get_state_from_offsets (Offsets (Some a) (Some b)) = REMOTE_BEHIND) = (a > b))
   \<and> ((get_state_from_offsets (Offsets (Some a) (Some b)) = SYNCHRONIZED) = (a = b))
   \<and> get_state_from_offsets (Offsets (Some a) (Some b)) \<noteq> UNKNOWN"
  by (auto simp: get_state_from_offsets_def)

section \<open>What each operation returns, stores and emits\<close>

lemma record_of_eq:
  "record_of self k = (case partitions self k of Some r \<Rightarrow> r | None \<Rightarrow> default_record)"
  by (simp add: record_of_def partitions_getitem_def split: option.splits)

lemma getitem_eq:
  "partitions_getitem self k =
     (record_of self k, self\<lparr>partitions := (partitions self)(k \<mapsto> record_of self k)\<rparr>)"
  by (auto simp: record_of_def partitions_getitem_def map_upd_triv split: option.splits)

lemma set_local_offset_fst:
  "fst (set_local_offset self t p v) =
     (let ps = state_of self (t, p);
          us = get_state_from_offsets (Offsets (Some v) (remote (offsets_of self (t, p))))
      in if rejected ps us then Inl (InvalidStateTransition ps us) else Inr ())"
  by (simp add: set_local_offset_def getitem_eq state_of_def offsets_of_def rejected_def
      Let_def split: prod.splits)

lemma set_remote_offset_fst:
  "fst (set_remote_offset self t p v) =
     (let ps = state_of self (t, p);
          us = get_state_from_offsets (Offsets (local (offsets_of self (t, p))) (Some v))
      in if rejected ps us then Inl (InvalidStateTransition ps us) else Inr ())"
  by (simp add: set_remote_offset_def getitem_eq state_of_def offsets_of_def rejected_def
      Let_def split: prod.splits)

lemma set_local_offset_partitions:
  "partitions (snd (set_local_offset self t p v)) =
     (let ps = state_of self (t, p);
          uo = Offsets (Some v) (remote (offsets_of self (t, p)));
          us = get_state_from_offsets uo
      in if rejected ps us then (partitions self)((t, p) \<mapsto> record_of self (t, p))
         else (partitions self)((t, p) \<mapsto> (Some us, uo)))"
  by (simp add: set_local_offset_def getitem_eq state_of_def offsets_of_def rejected_def
      emit_def Let_def split: prod.splits)

lemma set_remote_offset_partitions:
  "partitions (snd (set_remote_offset self t p v)) =
     (let ps = state_of self (t, p);
          uo = Offsets (local (offsets_of self (t, p))) (Some v);
          us = get_state_from_offsets uo
      in if rejected ps us then (partitions self)((t, p) \<mapsto> record_of self (t, p))
         else (partitions self)((t, p) \<mapsto> (Some us, uo)))"
  by (simp add: set_remote_offset_def getitem_eq state_of_def offsets_of_def rejected_def
      emit_def Let_def split: prod.splits)

lemma rejected_present:
  "rejected (state_of self k) (get_state_from_offsets (Offsets (Some v) (remote (offsets_of self k))))
   \<Longrightarrow> partitions self k \<noteq> None"
  "rejected (state_of self k) (get_state_from_offsets (Offsets (local (offsets_of self k)) (Some v)))
   \<Longrightarrow> partitions self k \<noteq> None"
  by (auto simp: rejected_def state_of_def offsets_of_def record_of_eq default_record_def
      get_state_from_offsets_def split: option.splits)


lemma set_local_offset_events:
  "events (snd (set_local_offset self t p v)) =
     (let ps = state_of self (t, p);
          po = offsets_of self (t, p);
          uo = Offsets (Some v) (remote po);
          us = get_state_from_offsets uo
      in events self
         @ (if py_lt (Some v) (local po) then [LocalMovedBackwards v (local po)] else [])
         @ (if rejected ps us \<or> ps = Some us then []
            else (if us = REMOTE_BEHIND then [LocalExceedsRemote (Some v) (remote po)] else [])
                 @ [Callback t p (ps, po) (Some us, uo)]))"
  by (simp add: set_local_offset_def getitem_eq state_of_def offsets_of_def rejected_def
      emit_def Let_def split: prod.splits)

lemma set_remote_offset_events:
  "events (snd (set_remote_offset self t p v)) =
     (let ps = state_of self (t, p);
          po = offsets_of self (t, p);
          uo = Offsets (local po) (Some v);
          us = get_state_from_offsets uo
      in events self
         @ (if py_lt (Some v) (remote po) then [RemoteMovedBackwards v (remote po)] else [])
         @ (if rejected ps us \<or> ps = Some us then []
            else [Callback t p (ps, po) (Some us, uo)]))"
  by (simp add: set_remote_offset_def getitem_eq state_of_def offsets_of_def rejected_def
      emit_def Let_def split: prod.splits)

lemma validate_local_message_fst:
  "fst (validate_local_message self t p offset) =
     (if state_of self (t, p) \<noteq> Some LOCAL_BEHIND then Inl InvalidState
      else if py_ge (Some offset) (remote (offsets_of self (t, p))) then Inl MessageNotReady
      else Inr ())"
  by (simp add: validate_local_message_def getitem_eq state_of_def offsets_of_def
      Let_def split: prod.splits)

lemma validate_local_message_partitions:
  "partitions (snd (validate_local_message self t p offset)) =
     (partitions self)((t, p) \<mapsto> record_of self (t, p))"
  by (simp add: validate_local_message_def getitem_eq emit_def Let_def split: prod.splits)

section \<open>Admission of local messages\<close>

lemma py_ge_Some: "py_ge (Some a) r = (\<not> (\<exists>b. r = Some b \<and> a < b))"
  by (cases r) (auto simp: py_ge_def)

text \<open>
  C1: for every key, \<open>validate_local_message\<close> returns normally exactly when the key's
  state is LOCAL_BEHIND and the offset is below the stored remote offset; it raises
  \<open>InvalidState\<close> exactly when the state is one of \<open>None\<close>, UNKNOWN, SYNCHRONIZED and
  REMOTE_BEHIND; and it raises \<open>MessageNotReady\<close> when the state is LOCAL_BEHIND and the
  offset is not below the stored remote offset.
\<close>

theorem validate_local_message_outcome:
  "((fst (validate_local_message self t p offset) = Inr ()) =
      (state_of self (t, p) = Some LOCAL_BEHIND
       \<and> (\<exists>r. remote (offsets_of self (t, p)) = Some r \<and> offset < r)))
   \<and> ((fst (validate_local_message self t p offset) = Inl InvalidState) =
      (state_of self (t, p) \<in> {None, Some UNKNOWN, Some SYNCHRONIZED, Some REMOTE_BEHIND}))
   \<and> ((fst (validate_local_message self t p offset) = Inl MessageNotReady) =
      (state_of self (t, p) = Some LOCAL_BEHIND
       \<and> \<not> (\<exists>r. remote (offsets_of self (t, p)) = Some r \<and> offset < r)))
   \<and> (state_of self (t, p) = Some LOCAL_BEHIND
        \<and> remote (offsets_of self (t, p)) = Some r \<and> offset \<ge> r
      \<longrightarrow> fst (validate_local_message self t p offset) = Inl MessageNotReady)"
proof -
  have states: "(state_of self (t, p) \<noteq> Some LOCAL_BEHIND) =
      (state_of self (t, p) \<in> {None, Some UNKNOWN, Some SYNCHRONIZED, Some REMOTE_BEHIND})"
  proof (cases "state_of self (t, p)")
    case None
    then show ?thesis by simp
  next
    case (Some st)
    then show ?thesis by (cases st) simp_all
  qed
  show ?thesis
    unfolding validate_local_message_fst py_ge_Some states [symmetric] by auto
qed


section \<open>Offset updates\<close>

lemma run_calls_snoc:
  "run_calls self (cs @ [c]) =
     (fst (run_calls self cs) @ [fst (perform (snd (run_calls self cs)) c)],
      snd (perform (snd (run_calls self cs)) c))"
  by (induction cs arbitrary: self) (simp_all add: Let_def split: prod.splits)

lemma set_local_offset_stored:
  assumes "fst (set_local_offset self t p v) = Inr ()"
  shows "partitions (snd (set_local_offset self t p v)) (t, p) =
           Some (Some (get_state_from_offsets (Offsets (Some v) (remote (offsets_of self (t, p))))),
                 Offsets (Some v) (remote (offsets_of self (t, p))))"
  using assms by (simp add: set_local_offset_fst set_local_offset_partitions Let_def split: if_splits)

lemma set_remote_offset_stored:
  assumes "fst (set_remote_offset self t p v) = Inr ()"
  shows "partitions (snd (set_remote_offset self t p v)) (t, p) =
           Some (Some (get_state_from_offsets (Offsets (local (offsets_of self (t, p))) (Some v))),
                 Offsets (local (offsets_of self (t, p))) (Some v))"
  using assms by (simp add: set_remote_offset_fst set_remote_offset_partitions Let_def split: if_splits)

lemma stored_derived:
  assumes "partitions self k = Some (Some (get_state_from_offsets offs), offs)"
  shows "partitions self k =
           Some (Some (get_state_from_offsets (offsets_of self k)), offsets_of self k)"
  using assms by (simp add: offsets_of_def record_of_eq)

text \<open>
  C3: after any sequence of calls, a \<open>set_local_offset\<close> or \<open>set_remote_offset\<close> call
  that returns normally leaves, for its key, a stored state equal to the state derived from
  the stored offsets. The sequence may start from any manager.
\<close>

theorem stored_state_is_derived:
  assumes "c = SetLocalOffset t p v \<or> c = SetRemoteOffset t p v"
    and "run_calls self (cs @ [c]) = (rs, self')"
    and "last rs = Inr ()"
  shows "partitions self' (t, p) =
           Some (Some (get_state_from_offsets (offsets_of self' (t, p))), offsets_of self' (t, p))"
proof -
  define s where "s = snd (run_calls self cs)"
  from assms(2) have res: "fst (perform s c) = last rs" and post: "self' = snd (perform s c)"
    by (auto simp: run_calls_snoc s_def)
  from assms(1) show ?thesis
  proof
    assume "c = SetLocalOffset t p v"
    with res post assms(3) show ?thesis
      by (auto intro: stored_derived set_local_offset_stored)
  next
    assume "c = SetRemoteOffset t p v"
    with res post assms(3) show ?thesis
      by (auto intro: stored_derived set_remote_offset_stored)
  qed
qed

lemma set_local_offset_rejected:
  "(\<exists>e. fst (set_local_offset self t p v) = Inl e) =
     rejected (state_of self (t, p))
       (get_state_from_offsets (Offsets (Some v) (remote (offsets_of self (t, p)))))"
  by (simp add: set_local_offset_fst Let_def)

lemma set_remote_offset_rejected:
  "(\<exists>e. fst (set_remote_offset self t p v) = Inl e) =
     rejected (state_of self (t, p))
       (get_state_from_offsets (Offsets (local (offsets_of self (t, p))) (Some v)))"
  by (simp add: set_remote_offset_fst Let_def)

lemma set_local_offset_raise:
  assumes "fst (set_local_offset self t p v) = Inl e"
  shows "e = InvalidStateTransition (state_of self (t, p))
               (get_state_from_offsets (Offsets (Some v) (remote (offsets_of self (t, p)))))
         \<and> partitions (snd (set_local_offset self t p v)) = partitions self"
proof -
  from assms have rej: "rejected (state_of self (t, p))
       (get_state_from_offsets (Offsets (Some v) (remote (offsets_of self (t, p)))))"
    using set_local_offset_rejected by blast
  then obtain r where "partitions self (t, p) = Some r"
    using rejected_present(1) by blast
  then have "(partitions self)((t, p) \<mapsto> record_of self (t, p)) = partitions self"
    by (simp add: record_of_eq map_upd_triv)
  with rej assms show ?thesis
    by (simp add: set_local_offset_fst set_local_offset_partitions Let_def)
qed

lemma set_remote_offset_raise:
  assumes "fst (set_remote_offset self t p v) = Inl e"
  shows "e = InvalidStateTransition (state_of self (t, p))
               (get_state_from_offsets (Offsets (local (offsets_of self (t, p))) (Some v)))
         \<and> partitions (snd (set_remote_offset self t p v)) = partitions self"
proof -
  from assms have rej: "rejected (state_of self (t, p))
       (get_state_from_offsets (Offsets (local (offsets_of self (t, p))) (Some v)))"
    using set_remote_offset_rejected by blast
  then obtain r where "partitions self (t, p) = Some r"
    using rejected_present(2) by blast
  then have "(partitions self)((t, p) \<mapsto> record_of self (t, p)) = partitions self"
    by (simp add: record_of_eq map_upd_triv)
  with rej assms show ?thesis
    by (simp add: set_remote_offset_fst set_remote_offset_partitions Let_def)
qed

text \<open>
  C4: \<open>set_local_offset\<close> and \<open>set_remote_offset\<close> raise exactly when the state
  derived from the updated offsets differs from the previous state and is not in the
  \<open>transitions\<close> entry of the previous state; the exception is
  \<open>InvalidStateTransition\<close> for that pair, and the mapping is then the one before the call.
\<close>

theorem invalid_state_transition_exactly:
  "((\<exists>e. fst (set_local_offset self t p v) = Inl e) =
      (let previous_state = state_of self (t, p);
           updated_state =
             get_state_from_offsets (Offsets (Some v) (remote (offsets_of self (t, p))))
       in previous_state \<noteq> Some updated_state \<and> updated_state \<notin> transitions previous_state))
   \<and> ((\<exists>e. fst (set_remote_offset self t p v) = Inl e) =
      (let previous_state = state_of self (t, p);
           updated_state =
             get_state_from_offsets (Offsets (local (offsets_of self (t, p))) (Some v))
       in previous_state \<noteq> Some updated_state \<and> updated_state \<notin> transitions previous_state))
   \<and> (fst (set_local_offset self t p v) = Inl e \<longrightarrow>
        e = InvalidStateTransition (state_of self (t, p))
              (get_state_from_offsets (Offsets (Some v) (remote (offsets_of self (t, p)))))
        \<and> partitions (snd (set_local_offset self t p v)) = partitions self)
   \<and> (fst (set_remote_offset self t p v) = Inl e \<longrightarrow>
        e = InvalidStateTransition (state_of self (t, p))
              (get_state_from_offsets (Offsets (local (offsets_of self (t, p))) (Some v)))
        \<and> partitions (snd (set_remote_offset self t p v)) = partitions self)"
  using set_local_offset_raise [of self t p v e] set_remote_offset_raise [of self t p v e]
  unfolding set_local_offset_rejected set_remote_offset_rejected
  by (simp add: rejected_def Let_def)


lemma callbacks_set_local_offset:
  assumes "fst (set_local_offset self t p v) = Inr ()"
  shows "callbacks (snd (set_local_offset self t p v)) =
           callbacks self @
           (let previous = record_of self (t, p);
                updated_offsets = Offsets (Some v) (remote (snd previous));
                updated = (Some (get_state_from_offsets updated_offsets), updated_offsets)
            in if fst previous \<noteq> fst updated then [Callback t p previous updated] else [])"
proof -
  from assms have "\<not> rejected (state_of self (t, p))
      (get_state_from_offsets (Offsets (Some v) (remote (offsets_of self (t, p)))))"
    by (simp add: set_local_offset_fst Let_def split: if_splits)
  then show ?thesis
    by (simp add: callbacks_def set_local_offset_events Let_def state_of_def offsets_of_def)
qed

lemma callbacks_set_remote_offset:
  assumes "fst (set_remote_offset self t p v) = Inr ()"
  shows "callbacks (snd (set_remote_offset self t p v)) =
           callbacks self @
           (let previous = record_of self (t, p);
                updated_offsets = Offsets (local (snd previous)) (Some v);
                updated = (Some (get_state_from_offsets updated_offsets), updated_offsets)
            in if fst previous \<noteq> fst updated then [Callback t p previous updated] else [])"
proof -
  from assms have "\<not> rejected (state_of self (t, p))
      (get_state_from_offsets (Offsets (local (offsets_of self (t, p))) (Some v)))"
    by (simp add: set_remote_offset_fst Let_def split: if_splits)
  then show ?thesis
    by (simp add: callbacks_def set_remote_offset_events Let_def state_of_def offsets_of_def)
qed

text \<open>
  C5: a \<open>set_local_offset\<close> or \<open>set_remote_offset\<close> call that returns normally adds
  exactly one callback invocation, with the arguments
  \<open>(topic, partition, (previous_state, previous_offsets), (updated_state, updated_offsets))\<close>,
  when the derived state differs from the previous state, and adds none when it is the same.
\<close>

theorem callback_once_on_state_change:
  "(fst (set_local_offset self t p v) = Inr () \<longrightarrow>
      callbacks (snd (set_local_offset self t p v)) =
        callbacks self @
        (let previous = record_of self (t, p);
             updated_offsets = Offsets (Some v) (remote (snd previous));
             updated = (Some (get_state_from_offsets updated_offsets), updated_offsets)
         in if fst previous \<noteq> fst updated then [Callback t p previous updated] else []))
   \<and> (fst (set_remote_offset self t p v) = Inr () \<longrightarrow>
      callbacks (snd (set_remote_offset self t p v)) =
        callbacks self @
        (let previous = record_of self (t, p);
             updated_offsets = Offsets (local (snd previous)) (Some v);
             updated = (Some (get_state_from_offsets updated_offsets), updated_offsets)
         in if fst previous \<noteq> fst updated then [Callback t p previous updated] else []))"
  using callbacks_set_local_offset [of self t p v] callbacks_set_remote_offset [of self t p v]
  by blast

text \<open>
  C6 (as the code has it): \<open>validate_local_message\<close> changes no record. Whether it
  returns or raises, every key reads as the same record as before; the mapping itself is
  unchanged when the key has a record, and otherwise gains the default record
  \<open>(None, Offsets(None, None))\<close> for the key, as every read of the \<open>defaultdict\<close> does.
\<close>

theorem validate_local_message_frame:
  "partitions (snd (validate_local_message self t p offset)) =
     (if partitions self (t, p) = None then (partitions self)((t, p) \<mapsto> (None, Offsets None None))
      else partitions self)
   \<and> (\<forall>k. record_of (snd (validate_local_message self t p offset)) k = record_of self k)"
proof -
  have "(\<forall>k. record_of (snd (validate_local_message self t p offset)) k = record_of self k)"
    by (simp add: record_of_eq [of "snd (validate_local_message self t p offset)"]
        validate_local_message_partitions) (simp add: record_of_eq)
  moreover have "partitions (snd (validate_local_message self t p offset)) =
     (if partitions self (t, p) = None then (partitions self)((t, p) \<mapsto> (None, Offsets None None))
      else partitions self)"
    by (auto simp: validate_local_message_partitions record_of_eq default_record_def map_upd_triv)
  ultimately show ?thesis by blast
qed

text \<open>
  C6 as stated (the mapping is exactly what it was, and no record is created for a key
  never seen) fails: on a fresh manager the call stores the default record for its key.
\<close>

theorem validate_local_message_creates_record:
  "partitions (snd (validate_local_message new_manager ''T'' 0 60)) \<noteq> partitions new_manager
   \<and> partitions new_manager (''T'', 0) = None
   \<and> partitions (snd (validate_local_message new_manager ''T'' 0 60)) (''T'', 0)
       = Some (None, Offsets None None)"
proof -
  have a: "partitions new_manager (''T'', 0) = None"
    by (simp add: new_manager_def)
  have b: "partitions (snd (validate_local_message new_manager ''T'' 0 60)) (''T'', 0)
       = Some (None, Offsets None None)"
    by (simp add: validate_local_message_partitions record_of_eq new_manager_def default_record_def)
  from a b have "partitions (snd (validate_local_message new_manager ''T'' 0 60)) \<noteq> partitions new_manager"
    by (metis option.distinct(1))
  with a b show ?thesis by blast
qed

text \<open>
  C7: a \<open>set_local_offset\<close> call that returns normally stores, for its key, offsets whose
  local side is the value and whose remote side is the one stored before; a
  \<open>set_remote_offset\<close> call stores the value as the remote side and carries the local side
  forward; and both leave the entry of every other key as it was.
\<close>

theorem offset_update_touches_one_side:
  "(fst (set_local_offset self t p v) = Inr () \<longrightarrow>
      (\<exists>st. partitions (snd (set_local_offset self t p v)) (t, p) =
              Some (st, Offsets (Some v) (remote (offsets_of self (t, p))))))
   \<and> (fst (set_remote_offset self t p v) = Inr () \<longrightarrow>
      (\<exists>st. partitions (snd (set_remote_offset self t p v)) (t, p) =
              Some (st, Offsets (local (offsets_of self (t, p))) (Some v))))
   \<and> (k \<noteq> (t, p) \<longrightarrow>
        partitions (snd (set_local_offset self t p v)) k = partitions self k
        \<and> partitions (snd (set_remote_offset self t p v)) k = partitions self k)"
  using set_local_offset_stored [of self t p v] set_remote_offset_stored [of self t p v]
  by (simp add: set_local_offset_partitions set_remote_offset_partitions Let_def)


lemma derived_not_rejected_local:
  assumes "state_of self k = Some (get_state_from_offsets (offsets_of self k))"
  shows "\<not> rejected (state_of self k)
           (get_state_from_offsets (Offsets (Some v) (remote (offsets_of self k))))"
  using assms
  by (cases "offsets_of self k"; cases "local (offsets_of self k)"; cases "remote (offsets_of self k)")
     (auto simp: rejected_def get_state_from_offsets_def)

lemma derived_not_rejected_remote:
  assumes "state_of self k = Some (get_state_from_offsets (offsets_of self k))"
  shows "\<not> rejected (state_of self k)
           (get_state_from_offsets (Offsets (local (offsets_of self k)) (Some v)))"
  using assms
  by (cases "offsets_of self k"; cases "local (offsets_of self k)"; cases "remote (offsets_of self k)")
     (auto simp: rejected_def get_state_from_offsets_def)

lemma backward_local:
  assumes "local (offsets_of self (t, p)) = Some prev" and "v < prev"
  shows "let ps = state_of self (t, p);
             uo = Offsets (Some v) (remote (offsets_of self (t, p)));
             us = get_state_from_offsets uo;
             outcome = set_local_offset self t p v
         in (\<exists>es. events (snd outcome) = events self @ LocalMovedBackwards v (Some prev) # es)
            \<and> (fst outcome = Inr () \<or> fst outcome = Inl (InvalidStateTransition ps us))
            \<and> (ps = Some us \<or> us \<in> transitions ps \<longrightarrow>
                 fst outcome = Inr ()
                 \<and> partitions (snd outcome) = (partitions self)((t, p) \<mapsto> (Some us, uo)))
            \<and> (ps = Some (get_state_from_offsets (offsets_of self (t, p))) \<longrightarrow>
                 fst outcome = Inr ())"
  using assms derived_not_rejected_local [of self "(t, p)" v]
  by (auto simp: Let_def set_local_offset_fst set_local_offset_partitions
      set_local_offset_events rejected_def)

lemma backward_remote:
  assumes "remote (offsets_of self (t, p)) = Some prev" and "v < prev"
  shows "let ps = state_of self (t, p);
             uo = Offsets (local (offsets_of self (t, p))) (Some v);
             us = get_state_from_offsets uo;
             outcome = set_remote_offset self t p v
         in (\<exists>es. events (snd outcome) = events self @ RemoteMovedBackwards v (Some prev) # es)
            \<and> (fst outcome = Inr () \<or> fst outcome = Inl (InvalidStateTransition ps us))
            \<and> (ps = Some us \<or> us \<in> transitions ps \<longrightarrow>
                 fst outcome = Inr ()
                 \<and> partitions (snd outcome) = (partitions self)((t, p) \<mapsto> (Some us, uo)))
            \<and> (ps = Some (get_state_from_offsets (offsets_of self (t, p))) \<longrightarrow>
                 fst outcome = Inr ())"
  using assms derived_not_rejected_remote [of self "(t, p)" v]
  by (auto simp: Let_def set_remote_offset_fst set_remote_offset_partitions
      set_remote_offset_events rejected_def)

text \<open>
  C8: when the value is below the offset stored before on that side, the call writes the
  log line and otherwise proceeds as for any value: its only possible exception is the
  \<open>InvalidStateTransition\<close> of the transition check, it returns normally and stores the
  derived state with the updated offsets whenever that check passes, and the check always
  passes when the stored state was the one derived from the stored offsets.
\<close>

theorem backward_offset_only_logged:
  "(local (offsets_of self (t, p)) = Some prev \<and> v < prev \<longrightarrow>
     (let ps = state_of self (t, p);
          uo = Offsets (Some v) (remote (offsets_of self (t, p)));
          us = get_state_from_offsets uo;
          outcome = set_local_offset self t p v
      in (\<exists>es. events (snd outcome) = events self @ LocalMovedBackwards v (Some prev) # es)
         \<and> (fst outcome = Inr () \<or> fst outcome = Inl (InvalidStateTransition ps us))
         \<and> (ps = Some us \<or> us \<in> transitions ps \<longrightarrow>
              fst outcome = Inr ()
              \<and> partitions (snd outcome) = (partitions self)((t, p) \<mapsto> (Some us, uo)))
         \<and> (ps = Some (get_state_from_offsets (offsets_of self (t, p))) \<longrightarrow>
              fst outcome = Inr ())))
   \<and> (remote (offsets_of self (t, p)) = Some prev \<and> v < prev \<longrightarrow>
     (let ps = state_of self (t, p);
          uo = Offsets (local (offsets_of self (t, p))) (Some v);
          us = get_state_from_offsets uo;
          outcome = set_remote_offset self t p v
      in (\<exists>es. events (snd outcome) = events self @ RemoteMovedBackwards v (Some prev) # es)
         \<and> (fst outcome = Inr () \<or> fst outcome = Inl (InvalidStateTransition ps us))
         \<and> (ps = Some us \<or> us \<in> transitions ps \<longrightarrow>
              fst outcome = Inr ()
              \<and> partitions (snd outcome) = (partitions self)((t, p) \<mapsto> (Some us, uo)))
         \<and> (ps = Some (get_state_from_offsets (offsets_of self (t, p))) \<longrightarrow>
              fst outcome = Inr ())))"
  using backward_local [of self t p prev v] backward_remote [of self t p prev v]
  by blast


section \<open>Reachable managers\<close>

lemma consistent_record:
  assumes "consistent self"
  shows "(state_of self k = None \<and> offsets_of self k = Offsets None None)
         \<or> state_of self k = Some (get_state_from_offsets (offsets_of self k))"
proof (cases "partitions self k")
  case None
  then show ?thesis
    by (simp add: state_of_def offsets_of_def record_of_eq default_record_def)
next
  case (Some r)
  obtain st offs where r: "r = (st, offs)"
    by (cases r)
  from assms Some r
  have "(st = None \<and> offs = Offsets None None) \<or> st = Some (get_state_from_offsets offs)"
    unfolding consistent_def by blast
  with Some r show ?thesis
    by (simp add: state_of_def offsets_of_def record_of_eq)
qed

lemma consistent_not_rejected:
  assumes "consistent self"
  shows "\<not> rejected (state_of self k)
           (get_state_from_offsets (Offsets (Some v) (remote (offsets_of self k))))"
    and "\<not> rejected (state_of self k)
           (get_state_from_offsets (Offsets (local (offsets_of self k)) (Some v)))"
  using consistent_record [OF assms, of k]
    derived_not_rejected_local [of self k v] derived_not_rejected_remote [of self k v]
  by (auto simp: rejected_def get_state_from_offsets_def)

lemma consistent_new_manager: "consistent new_manager"
  by (simp add: consistent_def new_manager_def)

lemma consistent_upd:
  assumes "consistent self"
    and "(st = None \<and> offs = Offsets None None) \<or> st = Some (get_state_from_offsets offs)"
    and "partitions self' = (partitions self)(k \<mapsto> (st, offs))"
  shows "consistent self'"
  using assms unfolding consistent_def by (auto split: if_splits)

lemma consistent_perform:
  assumes "consistent self"
  shows "consistent (snd (perform self c))"
proof (cases c)
  case (SetLocalOffset t p v)
  show ?thesis
  proof (rule consistent_upd [OF assms])
    show "partitions (snd (perform self c)) =
        (partitions self)((t, p) \<mapsto>
          (Some (get_state_from_offsets (Offsets (Some v) (remote (offsets_of self (t, p))))),
           Offsets (Some v) (remote (offsets_of self (t, p)))))"
      using consistent_not_rejected(1) [OF assms, of "(t, p)" v]
      by (simp add: SetLocalOffset set_local_offset_partitions Let_def)
  qed simp
next
  case (SetRemoteOffset t p v)
  show ?thesis
  proof (rule consistent_upd [OF assms])
    show "partitions (snd (perform self c)) =
        (partitions self)((t, p) \<mapsto>
          (Some (get_state_from_offsets (Offsets (local (offsets_of self (t, p))) (Some v))),
           Offsets (local (offsets_of self (t, p))) (Some v)))"
      using consistent_not_rejected(2) [OF assms, of "(t, p)" v]
      by (simp add: SetRemoteOffset set_remote_offset_partitions Let_def)
  qed simp
next
  case (ValidateLocalMessage t p v)
  show ?thesis
  proof (rule consistent_upd [OF assms])
    show "partitions (snd (perform self c)) =
        (partitions self)((t, p) \<mapsto> (state_of self (t, p), offsets_of self (t, p)))"
      by (simp add: ValidateLocalMessage validate_local_message_partitions state_of_def
          offsets_of_def)
    show "(state_of self (t, p) = None \<and> offsets_of self (t, p) = Offsets None None)
        \<or> state_of self (t, p) = Some (get_state_from_offsets (offsets_of self (t, p)))"
      by (rule consistent_record [OF assms])
  qed
qed

lemma consistent_run_calls:
  assumes "consistent self"
  shows "consistent (snd (run_calls self cs))"
  using assms
proof (induction cs arbitrary: self)
  case Nil
  then show ?case by simp
next
  case (Cons c cs)
  from Cons.prems have "consistent (snd (perform self c))"
    by (rule consistent_perform)
  then have "consistent (snd (run_calls (snd (perform self c)) cs))"
    by (rule Cons.IH)
  then show ?case
    by (simp add: Let_def case_prod_beta)
qed

lemma perform_no_transition_error:
  assumes "consistent self"
  shows "fst (perform self c) \<noteq> Inl (InvalidStateTransition a b)"
  using consistent_not_rejected [OF assms]
  by (cases c)
     (auto simp: set_local_offset_fst set_remote_offset_fst validate_local_message_fst Let_def)

lemma run_calls_no_transition_error:
  assumes "consistent self"
  shows "Inl (InvalidStateTransition a b) \<notin> set (fst (run_calls self cs))"
  using assms
proof (induction cs arbitrary: self)
  case Nil
  then show ?case by simp
next
  case (Cons c cs)
  have "Inl (InvalidStateTransition a b) \<notin> set (fst (run_calls (snd (perform self c)) cs))"
    by (rule Cons.IH [OF consistent_perform [OF Cons.prems]])
  moreover have "fst (perform self c) \<noteq> Inl (InvalidStateTransition a b)"
    by (rule perform_no_transition_error [OF Cons.prems])
  ultimately show ?case
    by (simp add: Let_def case_prod_beta)
qed

text \<open>
  C9: from a fresh manager, no sequence of calls yields \<open>InvalidStateTransition\<close>. In
  every manager so reached, and for every key and value, the state derived by either update
  is the previous state or is in its \<open>transitions\<close> entry; a key whose state is
  \<open>None\<close> derives UNKNOWN, and a key with both sides present never derives UNKNOWN.
\<close>

theorem fresh_store_never_rejects:
  "Inl (InvalidStateTransition a b) \<notin> set (fst (run_calls new_manager cs))
   \<and> (let self = snd (run_calls new_manager cs);
           previous_state = state_of self k;
           after_local = get_state_from_offsets (Offsets (Some v) (remote (offsets_of self k)));
           after_remote = get_state_from_offsets (Offsets (local (offsets_of self k)) (Some v))
       in (previous_state = Some after_local \<or> after_local \<in> transitions previous_state)
          \<and> (previous_state = Some after_remote \<or> after_remote \<in> transitions previous_state)
          \<and> (previous_state = None \<longrightarrow> after_local = UNKNOWN \<and> after_remote = UNKNOWN)
          \<and> (both_present (offsets_of self k) \<longrightarrow>
                after_local \<noteq> UNKNOWN \<and> after_remote \<noteq> UNKNOWN))"
proof -
  define self where "self = snd (run_calls new_manager cs)"
  have c: "consistent self"
    unfolding self_def by (rule consistent_run_calls [OF consistent_new_manager])
  have "state_of self k = None \<longrightarrow>
      get_state_from_offsets (Offsets (Some v) (remote (offsets_of self k))) = UNKNOWN
      \<and> get_state_from_offsets (Offsets (local (offsets_of self k)) (Some v)) = UNKNOWN"
    using consistent_record [OF c, of k] by (auto simp: get_state_from_offsets_def)
  moreover have "both_present (offsets_of self k) \<longrightarrow>
      get_state_from_offsets (Offsets (Some v) (remote (offsets_of self k))) \<noteq> UNKNOWN
      \<and> get_state_from_offsets (Offsets (local (offsets_of self k)) (Some v)) \<noteq> UNKNOWN"
    by (auto simp: both_present_def get_state_from_offsets_def)
  ultimately show ?thesis
    using consistent_not_rejected [OF c, of k v]
      run_calls_no_transition_error [OF consistent_new_manager, of a b cs]
    unfolding self_def [symmetric] Let_def rejected_def by blast
qed


lemma set_local_offset_record:
  "record_of (snd (set_local_offset self t p v)) k =
     (let ps = state_of self (t, p);
          uo = Offsets (Some v) (remote (offsets_of self (t, p)));
          us = get_state_from_offsets uo
      in if k = (t, p) \<and> \<not> rejected ps us then (Some us, uo) else record_of self k)"
  by (simp add: record_of_eq [of "snd (set_local_offset self t p v)"]
      set_local_offset_partitions Let_def) (simp add: record_of_eq)

lemma set_remote_offset_record:
  "record_of (snd (set_remote_offset self t p v)) k =
     (let ps = state_of self (t, p);
          uo = Offsets (local (offsets_of self (t, p))) (Some v);
          us = get_state_from_offsets uo
      in if k = (t, p) \<and> \<not> rejected ps us then (Some us, uo) else record_of self k)"
  by (simp add: record_of_eq [of "snd (set_remote_offset self t p v)"]
      set_remote_offset_partitions Let_def) (simp add: record_of_eq)

lemma validate_local_message_record:
  "record_of (snd (validate_local_message self t p v)) k = record_of self k"
  by (simp add: record_of_eq [of "snd (validate_local_message self t p v)"]
      validate_local_message_partitions) (simp add: record_of_eq)

lemma perform_both_present:
  assumes "both_present (offsets_of self k)"
  shows "both_present (offsets_of (snd (perform self c)) k)"
  using assms
  by (cases c)
     (auto simp: offsets_of_def set_local_offset_record set_remote_offset_record
        validate_local_message_record Let_def both_present_def)

lemma not_rejected_tracking:
  assumes "ps \<in> {Some LOCAL_BEHIND, Some REMOTE_BEHIND, Some SYNCHRONIZED}"
    and "\<not> rejected ps us"
  shows "Some us \<in> {Some LOCAL_BEHIND, Some REMOTE_BEHIND, Some SYNCHRONIZED}"
  using assms by (auto simp: rejected_def)

lemma perform_tracking:
  assumes "state_of self k \<in> {Some LOCAL_BEHIND, Some REMOTE_BEHIND, Some SYNCHRONIZED}"
  shows "state_of (snd (perform self c)) k
           \<in> {Some LOCAL_BEHIND, Some REMOTE_BEHIND, Some SYNCHRONIZED}"
proof (cases c)
  case (SetLocalOffset t p v)
  show ?thesis
    using assms not_rejected_tracking [of "state_of self k"
        "get_state_from_offsets (Offsets (Some v) (remote (offsets_of self k)))"]
    by (auto simp: SetLocalOffset state_of_def set_local_offset_record Let_def)
next
  case (SetRemoteOffset t p v)
  show ?thesis
    using assms not_rejected_tracking [of "state_of self k"
        "get_state_from_offsets (Offsets (local (offsets_of self k)) (Some v))"]
    by (auto simp: SetRemoteOffset state_of_def set_remote_offset_record Let_def)
next
  case (ValidateLocalMessage t p v)
  with assms show ?thesis
    by (simp add: state_of_def validate_local_message_record)
qed

lemma snd_run_calls_Cons:
  "snd (run_calls self (c # cs)) = snd (run_calls (snd (perform self c)) cs)"
  by (simp add: Let_def case_prod_beta)

lemma run_calls_both_present:
  assumes "both_present (offsets_of self k)"
  shows "both_present (offsets_of (snd (run_calls self cs)) k)"
  using assms
proof (induction cs arbitrary: self)
  case Nil
  then show ?case by simp
next
  case (Cons c cs)
  show ?case
    unfolding snd_run_calls_Cons
    by (rule Cons.IH [OF perform_both_present [OF Cons.prems]])
qed

lemma run_calls_tracking:
  assumes "state_of self k \<in> {Some LOCAL_BEHIND, Some REMOTE_BEHIND, Some SYNCHRONIZED}"
  shows "state_of (snd (run_calls self cs)) k
           \<in> {Some LOCAL_BEHIND, Some REMOTE_BEHIND, Some SYNCHRONIZED}"
  using assms
proof (induction cs arbitrary: self)
  case Nil
  then show ?case by simp
next
  case (Cons c cs)
  show ?case
    unfolding snd_run_calls_Cons
    by (rule Cons.IH [OF perform_tracking [OF Cons.prems]])
qed

text \<open>
  C10: once both sides of a key's offsets are present they stay present through every
  later call, and once the key's state is LOCAL_BEHIND, REMOTE_BEHIND or SYNCHRONIZED it
  stays one of these three: it is never UNKNOWN or \<open>None\<close> again.
\<close>

theorem both_sides_stay_present:
  "(both_present (offsets_of self k) \<longrightarrow>
      both_present (offsets_of (snd (run_calls self cs)) k))
   \<and> (state_of self k \<in> {Some LOCAL_BEHIND, Some REMOTE_BEHIND, Some SYNCHRONIZED} \<longrightarrow>
      state_of (snd (run_calls self cs)) k
        \<in> {Some LOCAL_BEHIND, Some REMOTE_BEHIND, Some SYNCHRONIZED}
      \<and> state_of (snd (run_calls self cs)) k \<noteq> Some UNKNOWN
      \<and> state_of (snd (run_calls self cs)) k \<noteq> None)"
  using run_calls_both_present [of self k cs] run_calls_tracking [of self k cs]
  by auto

section \<open>Worked examples\<close>

lemma scenario_manager_eq:
  "scenario_manager =
     \<lparr>partitions = [(''T'', 0) \<mapsto> (Some LOCAL_BEHIND, Offsets (Some 50) (Some 100))],
      events =
        [Callback ''T'' 0 (None, Offsets None None) (Some UNKNOWN, Offsets None (Some 100)),
         Callback ''T'' 0 (Some UNKNOWN, Offsets None (Some 100))
           (Some LOCAL_BEHIND, Offsets (Some 50) (Some 100))]\<rparr>"
  by (simp add: scenario_manager_def new_manager_def set_remote_offset_def set_local_offset_def
      partitions_getitem_def default_record_def get_state_from_offsets_def emit_def Let_def)

lemma scenario_record:
  "record_of scenario_manager (''T'', 0) = (Some LOCAL_BEHIND, Offsets (Some 50) (Some 100))"
  by (simp add: scenario_manager_eq record_of_eq)

lemma inconsistent_record:
  "record_of inconsistent_manager (''T'', 0) = (None, Offsets (Some 1) (Some 5))"
  by (simp add: inconsistent_manager_def record_of_eq)


lemma scenario_state:
  "state_of scenario_manager (''T'', 0) = Some LOCAL_BEHIND"
  "offsets_of scenario_manager (''T'', 0) = Offsets (Some 50) (Some 100)"
  by (simp_all add: state_of_def offsets_of_def scenario_record)

lemma inconsistent_state:
  "state_of inconsistent_manager (''T'', 0) = None"
  "offsets_of inconsistent_manager (''T'', 0) = Offsets (Some 1) (Some 5)"
  by (simp_all add: state_of_def offsets_of_def inconsistent_record)

theorem validate_local_message_outcome_witness:
  "state_of scenario_manager (''T'', 0) = Some LOCAL_BEHIND
   \<and> remote (offsets_of scenario_manager (''T'', 0)) = Some 100
   \<and> (100::int) \<ge> 100
   \<and> fst (validate_local_message scenario_manager ''T'' 0 100) = Inl MessageNotReady
   \<and> fst (validate_local_message scenario_manager ''T'' 0 60) = Inr ()
   \<and> fst (validate_local_message new_manager ''T'' 0 60) = Inl InvalidState"
proof -
  have none: "state_of new_manager (''T'', 0) = None"
    by (simp add: state_of_def record_of_eq new_manager_def default_record_def)
  show ?thesis
    using validate_local_message_outcome [of scenario_manager "''T''" 0 100 100]
      validate_local_message_outcome [of scenario_manager "''T''" 0 60 100]
      validate_local_message_outcome [of new_manager "''T''" 0 60 100]
    by (simp add: scenario_state none)
qed

theorem stored_state_is_derived_witness:
  "run_calls new_manager ([SetRemoteOffset ''T'' 0 100] @ [SetLocalOffset ''T'' 0 50])
     = ([Inr (), Inr ()], scenario_manager)
   \<and> last [Inr (), Inr ()] = (Inr () :: error + unit)
   \<and> partitions scenario_manager (''T'', 0) =
       Some (Some (get_state_from_offsets (offsets_of scenario_manager (''T'', 0))),
             offsets_of scenario_manager (''T'', 0))"
proof -
  have run: "run_calls new_manager ([SetRemoteOffset ''T'' 0 100] @ [SetLocalOffset ''T'' 0 50])
     = ([Inr (), Inr ()], scenario_manager)"
    by (simp add: scenario_manager_def new_manager_def set_remote_offset_def
        set_local_offset_def partitions_getitem_def default_record_def
        get_state_from_offsets_def emit_def Let_def)
  have ok: "last [Inr (), Inr ()] = (Inr () :: error + unit)"
    by simp
  from stored_state_is_derived [OF disjI1 [OF refl] run ok] run ok
  show ?thesis by blast
qed

theorem invalid_state_transition_exactly_witness:
  "fst (set_local_offset inconsistent_manager ''T'' 0 3)
     = Inl (InvalidStateTransition None LOCAL_BEHIND)
   \<and> partitions (snd (set_local_offset inconsistent_manager ''T'' 0 3))
       = partitions inconsistent_manager
   \<and> fst (set_remote_offset inconsistent_manager ''T'' 0 3)
       = Inl (InvalidStateTransition None LOCAL_BEHIND)
   \<and> partitions (snd (set_remote_offset inconsistent_manager ''T'' 0 3))
       = partitions inconsistent_manager"
proof -
  have l: "fst (set_local_offset inconsistent_manager ''T'' 0 3)
     = Inl (InvalidStateTransition None LOCAL_BEHIND)"
    by (simp add: set_local_offset_fst inconsistent_state get_state_from_offsets_def rejected_def)
  have r: "fst (set_remote_offset inconsistent_manager ''T'' 0 3)
     = Inl (InvalidStateTransition None LOCAL_BEHIND)"
    by (simp add: set_remote_offset_fst inconsistent_state get_state_from_offsets_def rejected_def)
  from invalid_state_transition_exactly [of inconsistent_manager "''T''" 0 3
      "InvalidStateTransition None LOCAL_BEHIND"] l r
  show ?thesis by blast
qed

theorem callback_once_on_state_change_witness:
  "fst (set_local_offset scenario_manager ''T'' 0 70) = Inr ()
   \<and> callbacks (snd (set_local_offset scenario_manager ''T'' 0 70)) = callbacks scenario_manager
   \<and> fst (set_local_offset scenario_manager ''T'' 0 100) = Inr ()
   \<and> callbacks (snd (set_local_offset scenario_manager ''T'' 0 100)) =
       callbacks scenario_manager @
       [Callback ''T'' 0 (Some LOCAL_BEHIND, Offsets (Some 50) (Some 100))
          (Some SYNCHRONIZED, Offsets (Some 100) (Some 100))]
   \<and> fst (set_remote_offset scenario_manager ''T'' 0 70) = Inr ()
   \<and> callbacks (snd (set_remote_offset scenario_manager ''T'' 0 70)) = callbacks scenario_manager
   \<and> fst (set_remote_offset scenario_manager ''T'' 0 50) = Inr ()
   \<and> callbacks (snd (set_remote_offset scenario_manager ''T'' 0 50)) =
       callbacks scenario_manager @
       [Callback ''T'' 0 (Some LOCAL_BEHIND, Offsets (Some 50) (Some 100))
          (Some SYNCHRONIZED, Offsets (Some 50) (Some 50))]"
proof -
  have ok: "fst (set_local_offset scenario_manager ''T'' 0 70) = Inr ()"
    "fst (set_local_offset scenario_manager ''T'' 0 100) = Inr ()"
    "fst (set_remote_offset scenario_manager ''T'' 0 70) = Inr ()"
    "fst (set_remote_offset scenario_manager ''T'' 0 50) = Inr ()"
    by (simp_all add: set_local_offset_fst set_remote_offset_fst scenario_state
        get_state_from_offsets_def rejected_def)
  show ?thesis
    using callback_once_on_state_change [of scenario_manager "''T''" 0 70]
      callback_once_on_state_change [of scenario_manager "''T''" 0 100]
      callback_once_on_state_change [of scenario_manager "''T''" 0 50] ok
    by (simp add: scenario_record get_state_from_offsets_def)
qed

theorem offset_update_touches_one_side_witness:
  "fst (set_local_offset scenario_manager ''T'' 0 70) = Inr ()
   \<and> (\<exists>st. partitions (snd (set_local_offset scenario_manager ''T'' 0 70)) (''T'', 0) =
             Some (st, Offsets (Some 70) (Some 100)))
   \<and> fst (set_remote_offset scenario_manager ''T'' 0 70) = Inr ()
   \<and> (\<exists>st. partitions (snd (set_remote_offset scenario_manager ''T'' 0 70)) (''T'', 0) =
             Some (st, Offsets (Some 50) (Some 70)))
   \<and> (''T'', 1) \<noteq> (''T'', 0::int)
   \<and> partitions (snd (set_local_offset scenario_manager ''T'' 0 70)) (''T'', 1)
       = partitions scenario_manager (''T'', 1)
   \<and> partitions (snd (set_remote_offset scenario_manager ''T'' 0 70)) (''T'', 1)
       = partitions scenario_manager (''T'', 1)"
proof -
  have ok: "fst (set_local_offset scenario_manager ''T'' 0 70) = Inr ()"
    "fst (set_remote_offset scenario_manager ''T'' 0 70) = Inr ()"
    by (simp_all add: set_local_offset_fst set_remote_offset_fst scenario_state
        get_state_from_offsets_def rejected_def)
  show ?thesis
    using offset_update_touches_one_side [of scenario_manager "''T''" 0 70 "(''T'', 1)"] ok
    by (simp add: scenario_state)
qed

theorem backward_offset_only_logged_witness:
  "local (offsets_of scenario_manager (''T'', 0)) = Some 50 \<and> (40::int) < 50
   \<and> fst (set_local_offset scenario_manager ''T'' 0 40) = Inr ()
   \<and> partitions (snd (set_local_offset scenario_manager ''T'' 0 40)) =
       (partitions scenario_manager)
         ((''T'', 0) \<mapsto> (Some LOCAL_BEHIND, Offsets (Some 40) (Some 100)))
   \<and> (\<exists>es. events (snd (set_local_offset scenario_manager ''T'' 0 40)) =
             events scenario_manager @ LocalMovedBackwards 40 (Some 50) # es)
   \<and> remote (offsets_of scenario_manager (''T'', 0)) = Some 100 \<and> (40::int) < 100
   \<and> fst (set_remote_offset scenario_manager ''T'' 0 40) = Inr ()
   \<and> partitions (snd (set_remote_offset scenario_manager ''T'' 0 40)) =
       (partitions scenario_manager)
         ((''T'', 0) \<mapsto> (Some REMOTE_BEHIND, Offsets (Some 50) (Some 40)))
   \<and> (\<exists>es. events (snd (set_remote_offset scenario_manager ''T'' 0 40)) =
             events scenario_manager @ RemoteMovedBackwards 40 (Some 100) # es)"
  using backward_offset_only_logged [of scenario_manager "''T''" 0 50 40]
    backward_offset_only_logged [of scenario_manager "''T''" 0 100 40]
  by (simp add: scenario_state get_state_from_offsets_def Let_def)

theorem fresh_store_never_rejects_witness:
  "Inl (InvalidStateTransition None LOCAL_BEHIND)
     \<notin> set (fst (run_calls new_manager
                 [SetRemoteOffset ''T'' 0 100, SetLocalOffset ''T'' 0 50]))
   \<and> both_present (offsets_of scenario_manager (''T'', 0))
   \<and> get_state_from_offsets (Offsets (Some 60) (remote (offsets_of scenario_manager (''T'', 0))))
       \<noteq> UNKNOWN
   \<and> get_state_from_offsets (Offsets (local (offsets_of scenario_manager (''T'', 0))) (Some 60))
       \<noteq> UNKNOWN
   \<and> state_of (snd (run_calls new_manager [])) (''T'', 0) = None
   \<and> get_state_from_offsets
        (Offsets (Some 60) (remote (offsets_of (snd (run_calls new_manager [])) (''T'', 0))))
       = UNKNOWN
   \<and> get_state_from_offsets
        (Offsets (local (offsets_of (snd (run_calls new_manager [])) (''T'', 0))) (Some 60))
       = UNKNOWN"
proof -
  have bp: "both_present (offsets_of scenario_manager (''T'', 0))"
    by (simp add: scenario_state both_present_def)
  have none: "state_of (snd (run_calls new_manager [])) (''T'', 0) = None"
    by (simp add: state_of_def record_of_eq new_manager_def default_record_def)
  show ?thesis
    using fresh_store_never_rejects [of None LOCAL_BEHIND
        "[SetRemoteOffset ''T'' 0 100, SetLocalOffset ''T'' 0 50]" "(''T'', 0)" 60]
      fresh_store_never_rejects [of None LOCAL_BEHIND "[]" "(''T'', 0)" 60] bp none
    unfolding scenario_manager_def [symmetric] Let_def
    by blast
qed

theorem both_sides_stay_present_witness:
  "both_present (offsets_of scenario_manager (''T'', 0))
   \<and> both_present (offsets_of (snd (run_calls scenario_manager
        [SetLocalOffset ''T'' 0 100, SetRemoteOffset ''T'' 0 20,
         ValidateLocalMessage ''T'' 0 5])) (''T'', 0))
   \<and> state_of scenario_manager (''T'', 0)
       \<in> {Some LOCAL_BEHIND, Some REMOTE_BEHIND, Some SYNCHRONIZED}
   \<and> state_of (snd (run_calls scenario_manager
        [SetLocalOffset ''T'' 0 100, SetRemoteOffset ''T'' 0 20,
         ValidateLocalMessage ''T'' 0 5])) (''T'', 0)
       \<in> {Some LOCAL_BEHIND, Some REMOTE_BEHIND, Some SYNCHRONIZED}"
proof -
  have bp: "both_present (offsets_of scenario_manager (''T'', 0))"
    by (simp add: scenario_state both_present_def)
  have st: "state_of scenario_manager (''T'', 0)
       \<in> {Some LOCAL_BEHIND, Some REMOTE_BEHIND, Some SYNCHRONIZED}"
    by (simp add: scenario_state)
  from both_sides_stay_present [of scenario_manager "(''T'', 0)"
      "[SetLocalOffset ''T'' 0 100, SetRemoteOffset ''T'' 0 20, ValidateLocalMessage ''T'' 0 5]"]
    bp st
  show ?thesis by blast
qed

theorem get_state_from_offsets_table_witness:
  "get_state_from_offsets (Offsets None (Some 5)) = UNKNOWN
   \<and> get_state_from_offsets (Offsets (Some 5) None) = UNKNOWN
   \<and> get_state_from_offsets (Offsets (Some 5) (Some 10)) = LOCAL_BEHIND
   \<and> get_state_from_offsets (Offsets (Some 10) (Some 5)) = REMOTE_BEHIND
   \<and> get_state_from_offsets (Offsets (Some 5) (Some 5)) = SYNCHRONIZED"
  using get_state_from_offsets_table [of "Some 5" "Some 5" 5 10]
    get_state_from_offsets_table [of "Some 5" "Some 5" 10 5]
    get_state_from_offsets_table [of "Some 5" "Some 5" 5 5]
  by simp

theorem validate_local_message_frame_witness:
  "partitions (snd (validate_local_message scenario_manager ''T'' 0 60))
     = partitions scenario_manager
   \<and> partitions (snd (validate_local_message scenario_manager ''U'' 0 60))
     = (partitions scenario_manager)((''U'', 0) \<mapsto> (None, Offsets None None))
   \<and> record_of (snd (validate_local_message scenario_manager ''U'' 0 60)) (''U'', 0)
     = record_of scenario_manager (''U'', 0)"
  using validate_local_message_frame [of scenario_manager "''T''" 0 60]
    validate_local_message_frame [of scenario_manager "''U''" 0 60]
  by (simp add: scenario_manager_eq)

end
